theory Spec2Isabelle
  imports Main
begin

section \<open>Values shared by the components\<close>

text \<open>
  JavaScript strings are modelled as \<open>string\<close>, a character standing for a code unit
  below 256. A value of type \<open>string | null\<close> is a \<open>string option\<close>; in a condition it
  is truthy when it is present and not empty.

  Each operation of a component is modelled as run to completion from the state it starts
  in: what a callback closed over are the values of that state, an updater passed to a
  state setter acts on the state at that point, and what a request settles to is an
  argument of the operation (\<open>Inl\<close> when the promise rejects).
\<close>

definition truthy :: "string option \<Rightarrow> bool" where
  "truthy v = (case v of None \<Rightarrow> False | Some s \<Rightarrow> s \<noteq> [])"

definition startsWith :: "string \<Rightarrow> string \<Rightarrow> bool" where
  "startsWith s p = (take (length p) s = p)"

text \<open>
  \<open>localStorage\<close>: \<open>getItem k\<close> is \<open>ls k\<close>, \<open>setItem k v\<close> is \<open>ls(k \<mapsto> v)\<close>,
  \<open>removeItem k\<close> is \<open>ls(k := None)\<close>.
\<close>

type_synonym local_storage = "string \<rightharpoonup> string"

record Token =
  access_token :: string
  token_type :: string
  expires_at :: string

text \<open>
  The interface declares \<open>token: Token\<close>; every reader of the field guards it with
  \<open>?.\<close>, so the absent case is kept.
\<close>

record SessionInfo =
  session_id :: string
  name :: string
  token :: "Token option"

text \<open>\<open>x?.token?.access_token\<close> on a \<open>SessionInfo | null\<close>.\<close>

definition token_of :: "SessionInfo option \<Rightarrow> string option" where
  "token_of x = (case x of None \<Rightarrow> None
     | Some s \<Rightarrow> (case token s of None \<Rightarrow> None | Some t \<Rightarrow> Some (access_token t)))"

section \<open>Requests\<close>

text \<open>
  The part of an axios request config this program reads or writes: the url, the method
  (the field \<open>method\<close>, named \<open>method_name\<close> here), the headers (by name) and the form
  fields of the body.
\<close>

record request_config =
  url :: "string option"
  method_name :: "string option"
  headers :: "string \<rightharpoonup> string"
  data :: "(string \<times> string) list"

datatype api_error = NetworkError | HttpError nat

text \<open>
  What the components share: the browser's local storage, and the requests handed to the
  axios instance so far, in the order of the calls and as the caller wrote them.
\<close>

record browser =
  localStorage :: local_storage
  requests :: "request_config list"

definition api_call :: "string \<Rightarrow> string \<Rightarrow> (string \<rightharpoonup> string) \<Rightarrow> (string \<times> string) list
    \<Rightarrow> 'a browser_scheme \<Rightarrow> 'a browser_scheme" where
  "api_call m u h d st =
     st\<lparr>requests := requests st @ [\<lparr>url = Some u, method_name = Some m, headers = h, data = d\<rparr>]\<rparr>"

section \<open>Session registry (SessionContext.tsx)\<close>

record session_state = browser +
  sessions :: "SessionInfo list"
  activeSessionInfo :: "SessionInfo option"
  isSessionLoading :: bool

text \<open>
  \<open>JSON.stringify\<close> is the platform's; the operations take it as the parameter \<open>S\<close>.
\<close>

definition switchActiveSession ::
  "(SessionInfo \<Rightarrow> string) \<Rightarrow> SessionInfo option \<Rightarrow> session_state \<Rightarrow> session_state" where
  "switchActiveSession S sessionInfo st =
     (case sessionInfo of
        Some si \<Rightarrow>
          st\<lparr>activeSessionInfo := sessionInfo,
             localStorage := ((localStorage st)(''activeSessionId'' \<mapsto> session_id si))
                                (''activeSessionInfo'' \<mapsto> S si)\<rparr>
      | None \<Rightarrow>
          st\<lparr>activeSessionInfo := sessionInfo,
             localStorage := ((localStorage st)(''activeSessionId'' := None))
                                (''activeSessionInfo'' := None)\<rparr>)"

text \<open>\<open>{ ...s, name: s.name || 'Untitled Chat' }\<close>\<close>

definition default_name :: "SessionInfo \<Rightarrow> SessionInfo" where
  "default_name s = s\<lparr>name := (if name s = [] then ''Untitled Chat'' else name s)\<rparr>"

text \<open>
  \<open>createNewSessionFn\<close>: \<open>userToken\<close> is the value the callback closed over; \<open>post_result\<close>
  is what \<open>api.post('/api/v1/auth/session')\<close> settles to (\<open>Inl\<close> when it rejects). The
  result is the new state and the returned session (or null).
\<close>

definition createNewSessionFn ::
  "(SessionInfo \<Rightarrow> string) \<Rightarrow> string option \<Rightarrow> api_error + SessionInfo
    \<Rightarrow> session_state \<Rightarrow> session_state \<times> SessionInfo option" where
  "createNewSessionFn S userToken post_result st =
     (if \<not> truthy userToken then (st, None)
      else
        let st1 = api_call ''post'' ''/api/v1/auth/session'' Map.empty []
                    (st\<lparr>isSessionLoading := True\<rparr>)
        in (case post_result of
              Inr response_data \<Rightarrow>
                let newSession = default_name response_data;
                    st2 = st1\<lparr>sessions := sessions st1 @ [newSession]\<rparr>;
                    st3 = switchActiveSession S (Some newSession) st2
                in (st3\<lparr>isSessionLoading := False\<rparr>, Some newSession)
            | Inl error \<Rightarrow> (st1\<lparr>isSessionLoading := False\<rparr>, None)))"

text \<open>
  \<open>fetchSessions\<close>: \<open>get_result\<close> is what \<open>api.get('/api/v1/auth/sessions')\<close> settles to.
  \<open>fetchedSessions\<close> starts as the empty list and is assigned only when the request
  succeeds; the \<open>finally\<close> block tests its length on every path.
\<close>

definition sessionToActivate :: "string option \<Rightarrow> SessionInfo list \<Rightarrow> SessionInfo option" where
  "sessionToActivate lastStoredActiveId fetchedSessions =
     (let found = (case lastStoredActiveId of
                     None \<Rightarrow> None
                   | Some i \<Rightarrow> if i = [] then None
                              else find (\<lambda>s. session_id s = i) fetchedSessions)
      in if found = None \<and> length fetchedSessions > 0 then Some (last fetchedSessions)
         else found)"

definition fetchSessions ::
  "(SessionInfo \<Rightarrow> string) \<Rightarrow> string option \<Rightarrow> api_error + SessionInfo list
    \<Rightarrow> api_error + SessionInfo \<Rightarrow> session_state \<Rightarrow> session_state" where
  "fetchSessions S userToken get_result post_result st =
     (if \<not> truthy userToken then
        (switchActiveSession S None (st\<lparr>sessions := []\<rparr>))\<lparr>isSessionLoading := False\<rparr>
      else
        let st1 = api_call ''get'' ''/api/v1/auth/sessions'' Map.empty []
                    (st\<lparr>isSessionLoading := True\<rparr>);
            (fetchedSessions, st2) =
              (case get_result of
                 Inr response_data \<Rightarrow>
                   let fetched = map default_name response_data;
                       st' = st1\<lparr>sessions := fetched\<rparr>
                   in (fetched,
                       switchActiveSession S
                         (sessionToActivate (localStorage st' ''activeSessionId'') fetched) st')
               | Inl error \<Rightarrow> ([], switchActiveSession S None (st1\<lparr>sessions := []\<rparr>)));
            st3 = st2\<lparr>isSessionLoading := False\<rparr>
        in if length fetchedSessions = 0
           then fst (createNewSessionFn S userToken post_result st3)
           else st3)"

text \<open>
  \<open>String.prototype.trim\<close> removes the white space and line terminators of ECMAScript
  from both ends; of the code units below 256 these are TAB, LF, VT, FF, CR, SP and NBSP.
\<close>

definition js_whitespace :: "char \<Rightarrow> bool" where
  "js_whitespace c = (of_char c \<in> {9, 10, 11, 12, 13, 32, 160 :: nat})"

definition trim :: "string \<Rightarrow> string" where
  "trim s = rev (dropWhile js_whitespace (rev (dropWhile js_whitespace s)))"

definition sanitizedName :: "string \<Rightarrow> string" where
  "sanitizedName newName = (if trim newName = [] then ''Untitled Chat'' else trim newName)"

text \<open>\<open>activeSessionInfo?.session_id === sessionId\<close>\<close>

definition active_is :: "session_state \<Rightarrow> string \<Rightarrow> bool" where
  "active_is st sessionId =
     (case activeSessionInfo st of None \<Rightarrow> False | Some a \<Rightarrow> session_id a = sessionId)"

text \<open>
  \<open>renameSession\<close>: \<open>sessions\<close> and \<open>activeSessionInfo\<close> are the values the callback closed
  over, here those of the state it starts from; \<open>patch_result\<close> is what the PATCH request
  settles to.
\<close>

definition renameSession ::
  "(SessionInfo \<Rightarrow> string) \<Rightarrow> string \<Rightarrow> string \<Rightarrow> api_error + SessionInfo
    \<Rightarrow> session_state \<Rightarrow> session_state" where
  "renameSession S sessionId newName patch_result st =
     (let sessionToRename = find (\<lambda>s. session_id s = sessionId) (sessions st) in
      if \<not> truthy (token_of sessionToRename) then st
      else
        let tok = the (token_of sessionToRename);
            st1 = api_call ''patch'' (''/api/v1/auth/session/'' @ sessionId @ ''/name'')
                    [''Content-Type'' \<mapsto> ''application/x-www-form-urlencoded'',
                     ''Authorization'' \<mapsto> ''Bearer '' @ tok]
                    [(''name'', sanitizedName newName)] st
        in (case patch_result of
              Inr response_data \<Rightarrow>
                let updatedSession = response_data\<lparr>name := sanitizedName newName\<rparr>;
                    updatedSessions =
                      map (\<lambda>s. if session_id s = sessionId then updatedSession else s)
                        (sessions st);
                    st2 = st1\<lparr>sessions := updatedSessions\<rparr>
                in if active_is st sessionId
                   then switchActiveSession S (Some updatedSession) st2
                   else st2
            | Inl error \<Rightarrow> st1))"

text \<open>
  \<open>deleteSession\<close>: \<open>delete_result\<close> is what the DELETE request settles to, \<open>post_result\<close>
  what the creation request settles to if \<open>createNewSessionFn\<close> is reached.
\<close>

definition deleteSession ::
  "(SessionInfo \<Rightarrow> string) \<Rightarrow> string option \<Rightarrow> string \<Rightarrow> api_error + unit
    \<Rightarrow> api_error + SessionInfo \<Rightarrow> session_state \<Rightarrow> session_state" where
  "deleteSession S userToken sessionId delete_result post_result st =
     (let sessionToDelete = find (\<lambda>s. session_id s = sessionId) (sessions st) in
      if \<not> truthy (token_of sessionToDelete) then st
      else
        let tok = the (token_of sessionToDelete);
            st1 = api_call ''delete'' (''/api/v1/auth/session/'' @ sessionId)
                    [''Authorization'' \<mapsto> ''Bearer '' @ tok] [] st
        in (case delete_result of
              Inr _ \<Rightarrow>
                let remainingSessions = filter (\<lambda>s. session_id s \<noteq> sessionId) (sessions st);
                    st2 = st1\<lparr>sessions := remainingSessions\<rparr>
                in if active_is st sessionId then
                     let toActivate = (if length remainingSessions > 0
                                       then Some (last remainingSessions) else None);
                         st3 = switchActiveSession S toActivate st2
                     in if toActivate = None
                        then fst (createNewSessionFn S userToken post_result st3)
                        else st3
                   else st2
            | Inl error \<Rightarrow> st1))"

section \<open>Request router (lib/api.ts, the request interceptor)\<close>

text \<open>
  \<open>String.prototype.toLowerCase\<close> on the code units below 256: the ASCII capitals and the
  Latin-1 capitals (all of 0xC0 to 0xDE but the multiplication sign) move up by 32.
\<close>

definition toLowerCase :: "string \<Rightarrow> string" where
  "toLowerCase s =
     map (\<lambda>c. let n = (of_char c :: nat)
              in if (65 \<le> n \<and> n \<le> 90) \<or> (192 \<le> n \<and> n \<le> 222 \<and> n \<noteq> 215)
                 then char_of (n + 32) else c) s"

text \<open>
  \<open>JSON.parse\<close> is the platform's; the interceptor takes as the parameter \<open>J\<close> the parse
  of the stored blob as a session record, \<open>None\<close> when \<open>JSON.parse\<close> throws (the
  interceptor catches it and goes on with a null token) or yields null.
\<close>

definition activeSessionToken :: "(string \<Rightarrow> SessionInfo option) \<Rightarrow> local_storage \<Rightarrow> string option" where
  "activeSessionToken J ls =
     (let sessionInfoStr = ls ''activeSessionInfo''
      in if truthy sessionInfoStr then token_of (J (the sessionInfoStr)) else None)"

definition route_token ::
  "(string \<Rightarrow> SessionInfo option) \<Rightarrow> local_storage \<Rightarrow> request_config \<Rightarrow> string option" where
  "route_token J ls config =
     (let u = (case url config of None \<Rightarrow> [] | Some x \<Rightarrow> x)
      in if startsWith u ''/api/v1/chatbot'' then activeSessionToken J ls
         else if u = ''/api/v1/auth/me'' \<or> startsWith u ''/api/v1/auth/sessions'' \<or>
                 u = ''/api/v1/auth/session'' \<or> startsWith u ''/api/v1/auth/session/''
         then (if map_option toLowerCase (method_name config) \<noteq> Some ''patch''
               then ls ''authToken'' else None)
         else None)"

definition interceptor ::
  "(string \<Rightarrow> SessionInfo option) \<Rightarrow> local_storage \<Rightarrow> request_config \<Rightarrow> request_config" where
  "interceptor J ls config =
     (let tok = route_token J ls config
      in if truthy tok \<and> \<not> truthy (headers config ''Authorization'')
         then config\<lparr>headers := (headers config)(''Authorization'' \<mapsto> ''Bearer '' @ the tok)\<rparr>
         else config)"

section \<open>Identity session (AuthContext.tsx)\<close>

text \<open>The interface \<open>User\<close>; its field \<open>id\<close> is named \<open>user_id\<close> here.\<close>

record User =
  user_id :: "int option"
  email :: "string option"

record auth_state = browser +
  userToken :: "string option"
  user :: "User option"
  isLoading :: bool
  pushed :: "string list"

definition fetchUserDetails :: "api_error + User \<Rightarrow> auth_state \<Rightarrow> auth_state \<times> bool" where
  "fetchUserDetails me_result st =
     (let st1 = api_call ''get'' ''/api/v1/auth/me'' Map.empty [] st
      in case me_result of
           Inr response_data \<Rightarrow>
             (st1\<lparr>user := Some \<lparr>user_id = user_id response_data, email = email response_data\<rparr>\<rparr>,
              True)
         | Inl error \<Rightarrow> (st1\<lparr>user := None\<rparr>, False))"

definition logout :: "auth_state \<Rightarrow> auth_state" where
  "logout st =
     st\<lparr>localStorage := (localStorage st)(''authToken'' := None, ''authTokenExpiry'' := None,
                             ''activeSessionId'' := None, ''activeSessionInfo'' := None),
        userToken := None, user := None, pushed := pushed st @ [''/login'']\<rparr>"

text \<open>
  \<open>new Date(expiry) > new Date()\<close>. \<open>new Date(expiry)\<close> is the platform's: the parameter
  \<open>D\<close> gives its time value, \<open>None\<close> for an invalid date, which compares false with
  everything. \<open>now\<close> is the time value of \<open>new Date()\<close>.
\<close>

definition expiryInFuture :: "(string \<Rightarrow> int option) \<Rightarrow> int \<Rightarrow> string \<Rightarrow> bool" where
  "expiryInFuture D now expiry =
     (case D expiry of None \<Rightarrow> False | Some expiryDate \<Rightarrow> expiryDate > now)"

text \<open>
  \<open>checkAuth\<close>. Nothing in the \<open>try\<close> block throws in this model (\<open>fetchUserDetails\<close>
  catches its own failure), so the \<open>catch\<close> clause has no branch here; the \<open>finally\<close>
  block is the last two steps.
\<close>

definition checkAuth ::
  "(string \<Rightarrow> int option) \<Rightarrow> int \<Rightarrow> api_error + User \<Rightarrow> auth_state \<Rightarrow> auth_state" where
  "checkAuth D now me_result st =
     (let st0 = st\<lparr>isLoading := True\<rparr>;
          storedToken = localStorage st0 ''authToken'';
          expiry = localStorage st0 ''authTokenExpiry'';
          (st1, foundValidToken) =
            (if truthy storedToken \<and> truthy expiry then
               (if expiryInFuture D now (the expiry)
                then (fst (fetchUserDetails me_result (st0\<lparr>userToken := storedToken\<rparr>)), True)
                else (st0\<lparr>localStorage :=
                            (localStorage st0)(''authToken'' := None, ''authTokenExpiry'' := None)\<rparr>,
                      False))
             else (st0, False));
          st2 = (if \<not> foundValidToken then st1\<lparr>userToken := None, user := None\<rparr> else st1)
      in st2\<lparr>isLoading := False\<rparr>)"

text \<open>
  The condition under which \<open>checkAuth\<close> adopts the persisted token: both items are
  present and not empty, and the expiry is strictly in the future.
\<close>

definition storedTokenValid :: "(string \<Rightarrow> int option) \<Rightarrow> int \<Rightarrow> local_storage \<Rightarrow> bool" where
  "storedTokenValid D now ls =
     (truthy (ls ''authToken'') \<and> truthy (ls ''authTokenExpiry'') \<and>
      expiryInFuture D now (the (ls ''authTokenExpiry'')))"

definition login :: "string \<Rightarrow> string \<Rightarrow> api_error + User \<Rightarrow> auth_state \<Rightarrow> auth_state" where
  "login newToken expiresAt me_result st =
     (let st1 = st\<lparr>localStorage := (localStorage st)(''authToken'' \<mapsto> newToken,
                                                        ''authTokenExpiry'' \<mapsto> expiresAt),
                   userToken := Some newToken\<rparr>;
          st2 = fst (fetchUserDetails me_result st1)
      in st2\<lparr>pushed := pushed st2 @ [''/'']\<rparr>)"

text \<open>\<open>!!userToken && !!user\<close>\<close>

definition isAuthenticated :: "auth_state \<Rightarrow> bool" where
  "isAuthenticated st = (truthy (userToken st) \<and> user st \<noteq> None)"

section \<open>Stream consumer (ChatInterface.tsx, handleSubmit)\<close>

datatype role = Role_user | Role_assistant | Role_system

record Message =
  role :: role
  content :: string

text \<open>The interface \<open>StreamChunk\<close>: \<open>content\<close> and \<open>done\<close>.\<close>

datatype StreamChunk = StreamChunk (chunk_content: string) (chunk_done: bool)

text \<open>
  What a \<open>catch\<close> clause can receive: an \<open>Error\<close> instance with its name and message, or
  a value that is not one.
\<close>

datatype js_thrown = ErrorObject (error_name: string) (error_message: string) | NonErrorValue

text \<open>
  The body of a response as the reader delivers it: the values of the successive
  \<open>reader.read()\<close> calls, then either \<open>done\<close> or a rejection.
\<close>

datatype read_end = EndOfData | ReadRejects js_thrown

text \<open>
  What \<open>response.json()\<close> settles to, as far as the handler looks at it: it rejects; or it
  resolves to null, and reading \<open>errorData.detail\<close> raises a \<open>TypeError\<close> whose message is
  the engine's; or it resolves to a value whose \<open>detail\<close> field is given (\<open>None\<close> when
  the value has no such field).
\<close>

datatype json_outcome = JsonRejects | JsonNull (type_error_message: string)
  | JsonDetail "string option"

text \<open>
  A response: \<open>ok\<close>, \<open>status\<close>, what \<open>response.json()\<close> settles to, and the body (\<open>None\<close>
  when it is null).
\<close>

datatype response = Response (response_ok: bool) (response_status: nat)
  (response_json: json_outcome)
  (response_body: "(string list \<times> read_end) option")

datatype fetch_result = FetchRejects js_thrown | FetchResolves response

record fetch_request =
  fetch_url :: string
  fetch_method :: string
  fetch_headers :: "string \<rightharpoonup> string"
  fetch_body_messages :: "Message list"

record chat_state =
  input :: string
  isSending :: bool
  messages :: "Message list"
  fetch_requests :: "fetch_request list"

text \<open>\<open>buffer.split('\n\n')\<close>: the pieces between the occurrences of two line feeds, found
  from the left; \<open>cur\<close> is the piece being read.\<close>

fun split_nn :: "string \<Rightarrow> string \<Rightarrow> string list" where
  "split_nn cur [] = [cur]"
| "split_nn cur [c] = [cur @ [c]]"
| "split_nn cur (a # b # rest) =
     (if a = CHR 0x0A \<and> b = CHR 0x0A then cur # split_nn [] rest
      else split_nn (cur @ [a]) (b # rest))"

text \<open>The updater given to \<open>setMessages\<close> for a chunk that is not marked done.\<close>

definition append_content :: "string \<Rightarrow> Message list \<Rightarrow> Message list" where
  "append_content c prevMessages =
     (if prevMessages \<noteq> [] \<and> role (last prevMessages) = Role_assistant
      then butlast prevMessages @
             [(last prevMessages)\<lparr>content := content (last prevMessages) @ c\<rparr>]
      else prevMessages)"

text \<open>
  One record of the stream. \<open>JSON.parse\<close> of the payload as a \<open>StreamChunk\<close> is the
  parameter \<open>P\<close>, \<open>None\<close> when it throws: the record is then logged and dropped.
\<close>

definition process_line :: "(string \<Rightarrow> StreamChunk option) \<Rightarrow> Message list \<Rightarrow> string \<Rightarrow> Message list" where
  "process_line P msgs line =
     (if startsWith line ''data: '' then
        (case P (drop 6 line) of
           None \<Rightarrow> msgs
         | Some chunk \<Rightarrow>
             if chunk_done chunk then msgs else append_content (chunk_content chunk) msgs)
      else msgs)"

text \<open>
  The read loop over the values the reader delivers; what is left in \<open>buffer\<close> when the
  reader reports \<open>done\<close> is not looked at again.
\<close>

fun read_loop :: "(string \<Rightarrow> StreamChunk option) \<Rightarrow> string list \<Rightarrow> string \<Rightarrow> Message list
    \<Rightarrow> Message list" where
  "read_loop P [] buffer msgs = msgs"
| "read_loop P (v # rest) buffer msgs =
     (let lines = split_nn [] (buffer @ v)
      in read_loop P rest (last lines) (foldl (process_line P) msgs (butlast lines)))"

text \<open>The decimal digits of the status in \<open>`HTTP error! status: ${response.status}`\<close>.\<close>

fun string_of_nat :: "nat \<Rightarrow> string" where
  "string_of_nat n =
     (if n < 10 then [char_of (48 + n)]
      else string_of_nat (n div 10) @ [char_of (48 + n mod 10)])"

text \<open>
  What the branch for a response that is not ok throws. When \<open>json()\<close> rejects, its
  \<open>catch\<close> supplies the detail \<open>Failed to get error details\<close>; when it resolves to
  null, the \<open>TypeError\<close> of reading \<open>errorData.detail\<close> is what leaves the block.
\<close>

definition http_error :: "response \<Rightarrow> js_thrown" where
  "http_error r =
     (case response_json r of
        JsonRejects \<Rightarrow> ErrorObject ''Error'' ''Failed to get error details''
      | JsonNull m \<Rightarrow> ErrorObject ''TypeError'' m
      | JsonDetail detail \<Rightarrow>
          ErrorObject ''Error''
            (if truthy detail then the detail
             else ''HTTP error! status: '' @ string_of_nat (response_status r)))"

text \<open>
  The \<open>try\<close> block: the state it leaves and what it threw, if anything.
  \<open>baseURL\<close> is \<open>api.defaults.baseURL\<close>, \<open>active\<close> the \<open>activeSessionInfo\<close> the handler
  closed over, \<open>sent\<close> the messages of the request body.
\<close>

definition try_block ::
  "(string \<Rightarrow> StreamChunk option) \<Rightarrow> string option \<Rightarrow> SessionInfo option \<Rightarrow> Message list
    \<Rightarrow> fetch_result \<Rightarrow> chat_state \<Rightarrow> chat_state \<times> js_thrown option" where
  "try_block P baseURL active sent fetched st =
     (if \<not> truthy (token_of active) then
        (st, Some (ErrorObject ''Error'' ''Session token is missing, cannot send message.''))
      else
        let streamUrl = (if truthy baseURL then the baseURL else []) @
                          ''/api/v1/chatbot/chat/stream'';
            st1 = st\<lparr>fetch_requests := fetch_requests st @
                     [\<lparr>fetch_url = streamUrl, fetch_method = ''POST'',
                       fetch_headers = [''Content-Type'' \<mapsto> ''application/json'',
                                        ''Accept'' \<mapsto> ''text/event-stream'',
                                        ''Authorization'' \<mapsto> ''Bearer '' @ the (token_of active)],
                       fetch_body_messages = sent\<rparr>]\<rparr>
        in (case fetched of
              FetchRejects e \<Rightarrow> (st1, Some e)
            | FetchResolves r \<Rightarrow>
                if \<not> response_ok r then (st1, Some (http_error r))
                else (case response_body r of
                        None \<Rightarrow> (st1, Some (ErrorObject ''Error'' ''Response body is null''))
                      | Some (vs, ending) \<Rightarrow>
                          (st1\<lparr>messages := read_loop P vs [] (messages st1)\<rparr>,
                           case ending of EndOfData \<Rightarrow> None | ReadRejects e \<Rightarrow> Some e))))"

text \<open>The \<open>catch\<close> clause.\<close>

definition catch_block :: "js_thrown \<Rightarrow> chat_state \<Rightarrow> chat_state" where
  "catch_block error st =
     (case error of
        ErrorObject nm msg \<Rightarrow>
          if nm \<noteq> ''AbortError'' then
            st\<lparr>messages :=
                 (let prevMessages = messages st;
                      shown = \<lparr>role = Role_assistant,
                               content = ''Sorry, an error occurred: '' @ msg\<rparr>
                  in if prevMessages \<noteq> [] \<and> role (last prevMessages) = Role_assistant \<and>
                        content (last prevMessages) = []
                     then butlast prevMessages @ [shown]
                     else prevMessages @ [shown])\<rparr>
          else st
      | NonErrorValue \<Rightarrow>
          st\<lparr>messages := messages st @
               [\<lparr>role = Role_assistant, content = ''Sorry, an unexpected error occurred.''\<rparr>]\<rparr>)"

text \<open>
  The state once the user message and the empty assistant placeholder are in the list,
  before the \<open>try\<close> block starts.
\<close>

definition submitted :: "chat_state \<Rightarrow> chat_state" where
  "submitted st =
     (let userMessage = \<lparr>role = Role_user, content = input st\<rparr>;
          assistantPlaceholder = \<lparr>role = Role_assistant, content = []\<rparr>
      in st\<lparr>messages := messages st @ [userMessage, assistantPlaceholder],
            input := [], isSending := True\<rparr>)"

definition handleSubmit ::
  "(string \<Rightarrow> StreamChunk option) \<Rightarrow> string option \<Rightarrow> SessionInfo option \<Rightarrow> fetch_result
    \<Rightarrow> chat_state \<Rightarrow> chat_state" where
  "handleSubmit P baseURL active fetched st =
     (if trim (input st) = [] \<or> isSending st \<or> active = None then st
      else
        let userMessage = \<lparr>role = Role_user, content = input st\<rparr>;
            (st2, thrown) =
              try_block P baseURL active (messages st @ [userMessage]) fetched (submitted st);
            st3 = (case thrown of None \<Rightarrow> st2 | Some error \<Rightarrow> catch_block error st2)
        in st3\<lparr>isSending := False\<rparr>)"

section \<open>Example inputs\<close>

definition session_A :: SessionInfo where
  "session_A = \<lparr>session_id = ''a1'', name = ''First'',
     token = Some \<lparr>access_token = ''sessA'', token_type = ''bearer'', expires_at = ''2030''\<rparr>\<rparr>"

definition session_B :: SessionInfo where
  "session_B = \<lparr>session_id = ''b2'', name = [],
     token = Some \<lparr>access_token = ''sessB'', token_type = ''bearer'', expires_at = ''2030''\<rparr>\<rparr>"

definition registry_empty :: session_state where
  "registry_empty = \<lparr>localStorage = Map.empty, requests = [], sessions = [],
     activeSessionInfo = None, isSessionLoading = True\<rparr>"

definition registry_A :: session_state where
  "registry_A = \<lparr>localStorage = [''activeSessionId'' \<mapsto> ''a1'', ''activeSessionInfo'' \<mapsto> ''a1''],
     requests = [], sessions = [session_A], activeSessionInfo = Some session_A,
     isSessionLoading = False\<rparr>"

definition auth_stored :: auth_state where
  "auth_stored = \<lparr>localStorage = [''authToken'' \<mapsto> ''acct'', ''authTokenExpiry'' \<mapsto> ''t200''],
     requests = [], userToken = None, user = None, isLoading = True, pushed = []\<rparr>"

text \<open>A date parser that knows one date, at time value 200.\<close>

definition date_200 :: "string \<Rightarrow> int option" where
  "date_200 s = (if s = ''t200'' then Some 200 else None)"

definition chat_idle :: chat_state where
  "chat_idle = \<lparr>input = ''hi'', isSending = False, messages = [], fetch_requests = []\<rparr>"

text \<open>A payload parser that knows three payloads.\<close>

definition parse_three :: "string \<Rightarrow> StreamChunk option" where
  "parse_three s =
     (if s = ''p1'' then Some (StreamChunk ''Hel'' False)
      else if s = ''p2'' then Some (StreamChunk ''lo'' False)
      else if s = ''p3'' then Some (StreamChunk ''X'' True)
      else None)"

section \<open>Properties of the session registry\<close>

lemma sessions_switchActiveSession:
  "sessions (switchActiveSession S x st) = sessions st"
  by (simp add: switchActiveSession_def split: option.splits)

lemma activeSessionInfo_switchActiveSession:
  "activeSessionInfo (switchActiveSession S x st) = x"
  by (simp add: switchActiveSession_def split: option.splits)

lemma requests_switchActiveSession:
  "requests (switchActiveSession S x st) = requests st"
  by (simp add: switchActiveSession_def split: option.splits)

lemma createNewSessionFn_Inr:
  "truthy ut \<Longrightarrow>
   sessions (fst (createNewSessionFn S ut (Inr r) st)) = sessions st @ [default_name r] \<and>
   activeSessionInfo (fst (createNewSessionFn S ut (Inr r) st)) = Some (default_name r)"
  by (simp add: createNewSessionFn_def Let_def api_call_def switchActiveSession_def)

lemma trim_whitespace:
  assumes "\<forall>c\<in>set s. js_whitespace c"
  shows "trim s = []"
proof -
  have d: "dropWhile js_whitespace s = []" using assms by simp
  show ?thesis unfolding trim_def d by simp
qed

section \<open>Properties of the request router\<close>

lemma startsWith_append: "startsWith u p \<Longrightarrow> \<exists>r. u = p @ r"
  unfolding startsWith_def by (metis append_take_drop_id)

lemma sessions_url_not_chatbot:
  assumes "startsWith u ''/api/v1/auth/sessions''"
  shows "\<not> startsWith u ''/api/v1/chatbot''"
proof -
  obtain r where "u = ''/api/v1/auth/sessions'' @ r"
    using assms startsWith_append by blast
  then show ?thesis by (simp add: startsWith_def)
qed

text \<open>
  The guard of the interceptor reads the header under the exact name \<open>Authorization\<close>
  and tests its truthiness: a non-empty value found there keeps the config as it is.
\<close>

lemma interceptor_guard:
  "truthy (headers cfg ''Authorization'') \<Longrightarrow> interceptor J ls cfg = cfg"
  by (simp add: interceptor_def Let_def)

section \<open>Properties of the stream consumer\<close>

lemma split_nn_nonempty: "split_nn cur s \<noteq> []"
  by (induction cur s rule: split_nn.induct) auto

lemma split_nn_cur:
  "split_nn cur s = (cur @ hd (split_nn [] s)) # tl (split_nn [] s)"
proof (induction s arbitrary: cur rule: induct_list012)
  case 1
  show ?case by simp
next
  case (2 c)
  show ?case by simp
next
  case (3 a b rest)
  show ?case
  proof (cases "a = CHR 0x0A \<and> b = CHR 0x0A")
    case True
    then show ?thesis by simp
  next
    case False
    have l: "split_nn cur (a # b # rest) = split_nn (cur @ [a]) (b # rest)"
      using False by auto
    have r: "split_nn [] (a # b # rest) = split_nn [a] (b # rest)"
      using False by auto
    have A: "split_nn (cur @ [a]) (b # rest) =
        ((cur @ [a]) @ hd (split_nn [] (b # rest))) # tl (split_nn [] (b # rest))"
      by (rule "3.IH"(2))
    have B: "split_nn [a] (b # rest) =
        ([a] @ hd (split_nn [] (b # rest))) # tl (split_nn [] (b # rest))"
      by (rule "3.IH"(2))
    show ?thesis
      by (simp only: l r A B) simp
  qed
qed

lemma split_nn_single: "split_nn [] s = [p] \<Longrightarrow> p = s"
proof (induction s arbitrary: p rule: induct_list012)
  case 1
  then show ?case by simp
next
  case (2 c)
  then show ?case by simp
next
  case (3 a b rest)
  show ?case
  proof (cases "a = CHR 0x0A \<and> b = CHR 0x0A")
    case True
    with "3.prems" show ?thesis by (simp add: split_nn_nonempty)
  next
    case False
    then have "split_nn [] (a # b # rest) = split_nn [a] (b # rest)" by auto
    also have "\<dots> = (a # hd (split_nn [] (b # rest))) # tl (split_nn [] (b # rest))"
      by (subst split_nn_cur) simp
    finally have e: "(a # hd (split_nn [] (b # rest))) # tl (split_nn [] (b # rest)) = [p]"
      using "3.prems" by simp
    then have t: "tl (split_nn [] (b # rest)) = []" and p: "p = a # hd (split_nn [] (b # rest))"
      by simp_all
    from t have "split_nn [] (b # rest) = [hd (split_nn [] (b # rest))]"
      using split_nn_nonempty[of "[]" "b # rest"] by (cases "split_nn [] (b # rest)") simp_all
    then have "hd (split_nn [] (b # rest)) = b # rest" by (rule "3.IH"(2))
    with p show ?thesis by simp
  qed
qed


lemma split_nn_last_single: "split_nn [] (last (split_nn [] s)) = [last (split_nn [] s)]"
proof (induction s rule: induct_list012)
  case 1
  show ?case by simp
next
  case (2 c)
  show ?case by simp
next
  case (3 a b rest)
  show ?case
  proof (cases "a = CHR 0x0A \<and> b = CHR 0x0A")
    case True
    then show ?thesis using "3.IH"(1) by (simp add: split_nn_nonempty)
  next
    case False
    then have "split_nn [] (a # b # rest) = split_nn [a] (b # rest)" by auto
    also have "\<dots> = (a # hd (split_nn [] (b # rest))) # tl (split_nn [] (b # rest))"
      by (subst split_nn_cur) simp
    finally have e: "split_nn [] (a # b # rest) =
        (a # hd (split_nn [] (b # rest))) # tl (split_nn [] (b # rest))" .
    show ?thesis
    proof (cases "tl (split_nn [] (b # rest)) = []")
      case True
      then have "split_nn [] (b # rest) = [hd (split_nn [] (b # rest))]"
        using split_nn_nonempty[of "[]" "b # rest"] by (cases "split_nn [] (b # rest)") simp_all
      then have "hd (split_nn [] (b # rest)) = b # rest" by (rule split_nn_single)
      with e True have "split_nn [] (a # b # rest) = [a # b # rest]" by simp
      then show ?thesis by simp
    next
      case False
      then have "last (split_nn [] (a # b # rest)) = last (split_nn [] (b # rest))"
        using e split_nn_nonempty[of "[]" "b # rest"]
        by (cases "split_nn [] (b # rest)") simp_all
      then show ?thesis using "3.IH"(2) by simp
    qed
  qed
qed

lemma split_nn_append:
  "split_nn [] (x @ y) =
     butlast (split_nn [] x) @ split_nn [] (last (split_nn [] x) @ y)"
proof (induction x rule: induct_list012)
  case 1
  show ?case by simp
next
  case (2 c)
  show ?case by simp
next
  case (3 a b rest)
  show ?case
  proof (cases "a = CHR 0x0A \<and> b = CHR 0x0A")
    case True
    then show ?thesis using "3.IH"(1) by (simp add: split_nn_nonempty)
  next
    case False
    let ?g = "split_nn [] (b # rest)"
    from False have "split_nn [] (a # b # rest) = split_nn [a] (b # rest)" by auto
    also have "\<dots> = (a # hd ?g) # tl ?g"
      by (subst split_nn_cur) simp
    finally have e: "split_nn [] (a # b # rest) = (a # hd ?g) # tl ?g" .
    from False have "split_nn [] ((a # b # rest) @ y) = split_nn [a] (b # rest @ y)" by auto
    also have "\<dots> = (a # hd (split_nn [] (b # rest @ y))) # tl (split_nn [] (b # rest @ y))"
      by (subst split_nn_cur) simp
    finally have f: "split_nn [] ((a # b # rest) @ y) =
        (a # hd (split_nn [] (b # rest @ y))) # tl (split_nn [] (b # rest @ y))" .
    have ih: "split_nn [] (b # rest @ y) = butlast ?g @ split_nn [] (last ?g @ y)"
      using "3.IH"(2) by simp
    show ?thesis
    proof (cases "tl ?g = []")
      case True
      then have g1: "?g = [hd ?g]"
        using split_nn_nonempty[of "[]" "b # rest"] by (cases ?g) simp_all
      then have h: "hd ?g = b # rest" by (rule split_nn_single)
      have "split_nn [] (a # b # rest) = [a # b # rest]" using e True h by simp
      then show ?thesis by simp
    next
      case False
      then obtain p q qs where g2: "?g = p # q # qs"
        by (cases ?g; cases "tl ?g") simp_all
      show ?thesis
        unfolding f e ih by (simp add: g2)
    qed
  qed
qed

lemma read_loop_eq:
  "split_nn [] buf = [buf] \<Longrightarrow>
   read_loop P vs buf msgs = foldl (process_line P) msgs (butlast (split_nn [] (buf @ concat vs)))"
proof (induction vs arbitrary: buf msgs)
  case Nil
  then show ?case by simp
next
  case (Cons v vs)
  let ?lines = "split_nn [] (buf @ v)"
  have "read_loop P (v # vs) buf msgs =
      read_loop P vs (last ?lines) (foldl (process_line P) msgs (butlast ?lines))"
    by (simp add: Let_def)
  also have "\<dots> = foldl (process_line P) (foldl (process_line P) msgs (butlast ?lines))
      (butlast (split_nn [] (last ?lines @ concat vs)))"
    by (rule Cons.IH) (rule split_nn_last_single)
  also have "\<dots> = foldl (process_line P) msgs
      (butlast (butlast ?lines @ split_nn [] (last ?lines @ concat vs)))"
    by (simp add: butlast_append split_nn_nonempty)
  also have "butlast ?lines @ split_nn [] (last ?lines @ concat vs) =
      split_nn [] ((buf @ v) @ concat vs)"
    by (rule split_nn_append[symmetric])
  finally show ?case by simp
qed

lemma split_nn_record:
  "CHR 0x0A \<notin> set r \<Longrightarrow> split_nn [] (r @ CHR 0x0A # CHR 0x0A # rest) = r # split_nn [] rest"
proof (induction r)
  case Nil
  show ?case by simp
next
  case (Cons c r)
  then have c: "c \<noteq> CHR 0x0A" and r: "CHR 0x0A \<notin> set r" by auto
  obtain b t where bt: "r @ CHR 0x0A # CHR 0x0A # rest = b # t"
    by (cases "r @ CHR 0x0A # CHR 0x0A # rest") simp_all
  have "split_nn [] ((c # r) @ CHR 0x0A # CHR 0x0A # rest) = split_nn [c] (b # t)"
    using c bt by simp
  also have "\<dots> = (c # hd (split_nn [] (b # t))) # tl (split_nn [] (b # t))"
    by (subst split_nn_cur) simp
  also have "split_nn [] (b # t) = r # split_nn [] rest"
    using Cons.IH[OF r] bt by simp
  finally show ?case by simp
qed

lemma split_nn_records:
  "\<forall>p\<in>set payloads. CHR 0x0A \<notin> set p \<Longrightarrow>
   split_nn [] (concat (map (\<lambda>p. ''data: '' @ p @ [CHR 0x0A, CHR 0x0A]) payloads)) =
     map (\<lambda>p. ''data: '' @ p) payloads @ [[]]"
proof (induction payloads)
  case Nil
  show ?case by simp
next
  case (Cons p ps)
  then have "CHR 0x0A \<notin> set (''data: '' @ p)" by simp
  from split_nn_record[OF this, of "concat (map (\<lambda>p. ''data: '' @ p @ [CHR 0x0A, CHR 0x0A]) ps)"]
  show ?case using Cons by simp
qed

lemma process_line_frame:
  "P p = Some f \<Longrightarrow>
   process_line P (ms @ [\<lparr>role = Role_assistant, content = t\<rparr>]) (''data: '' @ p) =
     ms @ [\<lparr>role = Role_assistant,
            content = t @ (if chunk_done f then [] else chunk_content f)\<rparr>]"
  by (simp add: process_line_def startsWith_def append_content_def)

lemma foldl_process_line_frames:
  "map P payloads = map Some frames \<Longrightarrow>
   foldl (process_line P) (ms @ [\<lparr>role = Role_assistant, content = t\<rparr>])
      (map (\<lambda>p. ''data: '' @ p) payloads) =
     ms @ [\<lparr>role = Role_assistant,
            content = t @ concat (map chunk_content (filter (\<lambda>f. \<not> chunk_done f) frames))\<rparr>]"
proof (induction payloads arbitrary: frames t)
  case Nil
  then show ?case by simp
next
  case (Cons p ps)
  then obtain f fs where fr: "frames = f # fs" and pf: "P p = Some f"
    and rest: "map P ps = map Some fs"
    by (cases frames) auto
  have "process_line P (ms @ [\<lparr>role = Role_assistant, content = t\<rparr>]) (''data: '' @ p) =
      ms @ [\<lparr>role = Role_assistant,
             content = t @ (if chunk_done f then [] else chunk_content f)\<rparr>]"
    using pf by (rule process_line_frame)
  then show ?case
    using Cons.IH[OF rest] by (simp add: fr)
qed

lemma process_line_shape:
  "\<exists>t'. process_line P (ms @ [\<lparr>role = Role_assistant, content = t\<rparr>]) line =
          ms @ [\<lparr>role = Role_assistant, content = t'\<rparr>]"
  by (simp add: process_line_def append_content_def split: option.splits)

lemma foldl_process_line_shape:
  "\<exists>t'. foldl (process_line P) (ms @ [\<lparr>role = Role_assistant, content = t\<rparr>]) lines =
          ms @ [\<lparr>role = Role_assistant, content = t'\<rparr>]"
proof (induction lines arbitrary: t)
  case Nil
  show ?case by simp
next
  case (Cons l ls)
  obtain t1 where "process_line P (ms @ [\<lparr>role = Role_assistant, content = t\<rparr>]) l =
      ms @ [\<lparr>role = Role_assistant, content = t1\<rparr>]"
    using process_line_shape by blast
  then show ?case using Cons.IH[of t1] by simp
qed

lemma read_loop_shape:
  "\<exists>t'. read_loop P vs buf (ms @ [\<lparr>role = Role_assistant, content = t\<rparr>]) =
          ms @ [\<lparr>role = Role_assistant, content = t'\<rparr>]"
proof (induction vs arbitrary: buf t)
  case Nil
  show ?case by simp
next
  case (Cons v vs)
  obtain t1 where "foldl (process_line P) (ms @ [\<lparr>role = Role_assistant, content = t\<rparr>])
      (butlast (split_nn [] (buf @ v))) = ms @ [\<lparr>role = Role_assistant, content = t1\<rparr>]"
    using foldl_process_line_shape by blast
  then show ?case using Cons.IH[of _ t1] by (simp add: Let_def)
qed

lemma read_loop_frames:
  assumes "concat vs = concat (map (\<lambda>p. ''data: '' @ p @ [CHR 0x0A, CHR 0x0A]) payloads)"
    and "\<forall>p\<in>set payloads. CHR 0x0A \<notin> set p"
    and "map P payloads = map Some frames"
  shows "read_loop P vs [] (ms @ [\<lparr>role = Role_assistant, content = t\<rparr>]) =
     ms @ [\<lparr>role = Role_assistant,
            content = t @ concat (map chunk_content (filter (\<lambda>f. \<not> chunk_done f) frames))\<rparr>]"
proof -
  have "read_loop P vs [] (ms @ [\<lparr>role = Role_assistant, content = t\<rparr>]) =
      foldl (process_line P) (ms @ [\<lparr>role = Role_assistant, content = t\<rparr>])
        (butlast (split_nn [] ([] @ concat vs)))"
    by (rule read_loop_eq) simp
  also have "split_nn [] ([] @ concat vs) = map (\<lambda>p. ''data: '' @ p) payloads @ [[]]"
    using assms(1) split_nn_records[OF assms(2)] by simp
  finally show ?thesis
    using foldl_process_line_frames[OF assms(3)] by (simp add: butlast_append)
qed

lemma try_block_shape:
  assumes "messages st1 = ms @ [\<lparr>role = Role_assistant, content = t\<rparr>]"
  shows "\<exists>t'. messages (fst (try_block P baseURL active sent fetched st1)) =
           ms @ [\<lparr>role = Role_assistant, content = t'\<rparr>]"
proof (cases "\<exists>r vs ending. truthy (token_of active) \<and> fetched = FetchResolves r \<and> response_ok r \<and>
    response_body r = Some (vs, ending)")
  case True
  then obtain r vs ending where h: "truthy (token_of active)" "fetched = FetchResolves r"
    "response_ok r" "response_body r = Some (vs, ending)" by blast
  obtain t' where "read_loop P vs [] (ms @ [\<lparr>role = Role_assistant, content = t\<rparr>]) =
      ms @ [\<lparr>role = Role_assistant, content = t'\<rparr>]"
    using read_loop_shape by blast
  then show ?thesis using h assms by (simp add: try_block_def Let_def)
next
  case False
  then have "messages (fst (try_block P baseURL active sent fetched st1)) = messages st1"
    by (auto simp: try_block_def Let_def split: fetch_result.splits option.splits prod.splits)
  then show ?thesis using assms by simp
qed

text \<open>
  The streaming request does not go through the axios instance: \<open>handleSubmit\<close> calls
  \<open>fetch\<close> itself, and the only credential it sends is the token of the active session.
\<close>

lemma handleSubmit_stream_credential:
  "fetch_requests (handleSubmit P baseURL active fetched st) = fetch_requests st \<or>
   (\<exists>r. fetch_requests (handleSubmit P baseURL active fetched st) = fetch_requests st @ [r] \<and>
        truthy (token_of active) \<and>
        fetch_headers r ''Authorization'' = Some (''Bearer '' @ the (token_of active)))"
  by (auto simp add: handleSubmit_def try_block_def submitted_def catch_block_def Let_def
      http_error_def
      split: fetch_result.splits option.splits js_thrown.splits read_end.splits prod.splits
        json_outcome.splits)

section \<open>The claims\<close>

text \<open>
  C1 (as amended). When \<open>fetchSessions\<close> runs with an account token and the listing
  request succeeds, the session list has at least one element afterwards, provided the
  server returned at least one session or the chained creation request succeeded.
\<close>

theorem fetchSessions_nonempty:
  assumes "truthy account_token"
    and "response_data \<noteq> [] \<or> post_result = Inr created"
  shows "1 \<le> length (sessions (fetchSessions S account_token (Inr response_data) post_result st))"
proof (cases "response_data = []")
  case True
  with assms(2) have pr: "post_result = Inr created" by simp
  show ?thesis
    using assms(1) True
    by (simp add: fetchSessions_def Let_def pr createNewSessionFn_Inr
        sessions_switchActiveSession)
next
  case False
  then show ?thesis
    using assms(1)
    by (simp add: fetchSessions_def Let_def sessions_switchActiveSession Suc_le_eq)
qed

theorem fetchSessions_nonempty_witness:
  "truthy (Some ''acct'') \<and>
   1 \<le> length (sessions (fetchSessions session_id (Some ''acct'') (Inr []) (Inr session_B)
                  registry_empty))"
proof -
  have h: "truthy (Some ''acct'')" by (simp add: truthy_def)
  have d: "([] :: SessionInfo list) \<noteq> [] \<or>
      (Inr session_B :: api_error + SessionInfo) = Inr session_B" by simp
  show ?thesis using h fetchSessions_nonempty[OF h d] by simp
qed

theorem fetchSessions_create_fails:
  "truthy (Some ''acct'') \<and>
   length (sessions (fetchSessions session_id (Some ''acct'') (Inr []) (Inl NetworkError)
              registry_empty)) = 0"
  by (simp add: fetchSessions_def createNewSessionFn_def Let_def switchActiveSession_def
      api_call_def truthy_def sessionToActivate_def registry_empty_def)

text \<open>
  C2 (as amended). From a registry whose only session is the active one, \<open>deleteSession\<close>
  of that session leaves exactly one session, and it is the active one, provided that, if
  the delete request succeeds, the account token is present and the chained creation
  request succeeds.
\<close>

theorem deleteSession_last_active:
  assumes "sessions st = [s]" and "activeSessionInfo st = Some a"
    and "session_id a = session_id s"
    and "delete_result = Inr u \<longrightarrow> truthy account_token \<and> post_result = Inr created"
  shows "\<exists>n a'. sessions (deleteSession S account_token (session_id s) delete_result post_result st) = [n] \<and>
           activeSessionInfo (deleteSession S account_token (session_id s) delete_result post_result st)
             = Some a' \<and>
           session_id a' = session_id n"
proof (cases "truthy (token_of (Some s))")
  case False
  then show ?thesis using assms(1-3) by (simp add: deleteSession_def)
next
  case tok: True
  show ?thesis
  proof (cases delete_result)
    case (Inl e)
    then show ?thesis using assms(1-3) tok
      by (simp add: deleteSession_def Let_def api_call_def)
  next
    case (Inr v)
    then have "truthy account_token" "post_result = Inr created" using assms(4) by simp_all
    then show ?thesis using assms(1-3) tok Inr
      by (simp add: deleteSession_def Let_def active_is_def createNewSessionFn_Inr
          sessions_switchActiveSession api_call_def)
  qed
qed

theorem deleteSession_last_active_witness:
  "\<exists>n a'. sessions (deleteSession session_id (Some ''acct'') ''a1'' (Inr ()) (Inr session_B)
                     registry_A) = [n] \<and>
           activeSessionInfo (deleteSession session_id (Some ''acct'') ''a1'' (Inr ())
                     (Inr session_B) registry_A) = Some a' \<and>
           session_id a' = session_id n"
proof -
  have h1: "sessions registry_A = [session_A]" by (simp add: registry_A_def)
  have h2: "activeSessionInfo registry_A = Some session_A" by (simp add: registry_A_def)
  have h3: "session_id session_A = session_id session_A" by simp
  have h4: "(Inr () :: api_error + unit) = Inr () \<longrightarrow>
      truthy (Some ''acct'') \<and> (Inr session_B :: api_error + SessionInfo) = Inr session_B"
    by (simp add: truthy_def)
  have i: "session_id session_A = ''a1''" by (simp add: session_A_def)
  show ?thesis
    using deleteSession_last_active[OF h1 h2 h3 h4, of session_id] unfolding i .
qed

theorem deleteSession_last_create_fails:
  "sessions registry_A = [session_A] \<and> activeSessionInfo registry_A = Some session_A \<and>
   session_id session_A = ''a1'' \<and>
   sessions (deleteSession session_id (Some ''acct'') ''a1'' (Inr ()) (Inl NetworkError) registry_A)
     = [] \<and>
   activeSessionInfo
     (deleteSession session_id (Some ''acct'') ''a1'' (Inr ()) (Inl NetworkError) registry_A)
     = None"
  by (simp add: deleteSession_def Let_def registry_A_def session_A_def truthy_def
      token_of_def api_call_def active_is_def switchActiveSession_def createNewSessionFn_def)

text \<open>
  C3 (as amended). \<open>isAuthenticated\<close> is false whenever no non-empty account token is held
  in memory, whatever identity is cached. Expiry is looked at by \<open>checkAuth\<close> only: right
  after \<open>checkAuth\<close>, \<open>isAuthenticated\<close> is true exactly when the persisted token and expiry
  are present, the expiry is strictly in the future at that time, and the identity fetch
  succeeded.
\<close>

theorem isAuthenticated_checkAuth:
  "(\<not> truthy (userToken st) \<longrightarrow> \<not> isAuthenticated st) \<and>
   (isAuthenticated (checkAuth D now me_result st) \<longleftrightarrow>
      storedTokenValid D now (localStorage st) \<and> (\<exists>u. me_result = Inr u))"
  by (auto simp add: isAuthenticated_def checkAuth_def Let_def fetchUserDetails_def
      api_call_def storedTokenValid_def expiryInFuture_def truthy_def
      split: sum.splits option.splits)

theorem isAuthenticated_checkAuth_witness:
  "\<not> truthy (userToken auth_stored) \<and> \<not> isAuthenticated auth_stored \<and>
   storedTokenValid date_200 100 (localStorage auth_stored) \<and>
   isAuthenticated (checkAuth date_200 100
      (Inr \<lparr>user_id = Some 1, email = Some ''a@b''\<rparr>) auth_stored)"
proof -
  have h: "\<not> truthy (userToken auth_stored)" by (simp add: auth_stored_def truthy_def)
  have v: "storedTokenValid date_200 100 (localStorage auth_stored)"
    by (simp add: storedTokenValid_def expiryInFuture_def auth_stored_def date_200_def
        truthy_def)
  show ?thesis
    using h v isAuthenticated_checkAuth[of auth_stored date_200 100
        "Inr \<lparr>user_id = Some 1, email = Some ''a@b''\<rparr>"]
    by simp
qed

theorem isAuthenticated_after_expiry:
  "isAuthenticated (checkAuth date_200 100
      (Inr \<lparr>user_id = Some 1, email = Some ''a@b''\<rparr>) auth_stored) \<and>
   localStorage (checkAuth date_200 100
      (Inr \<lparr>user_id = Some 1, email = Some ''a@b''\<rparr>) auth_stored) ''authTokenExpiry''
     = Some ''t200'' \<and>
   date_200 ''t200'' = Some 200 \<and> \<not> (200 :: int) > 300 \<and>
   \<not> storedTokenValid date_200 300 (localStorage (checkAuth date_200 100
      (Inr \<lparr>user_id = Some 1, email = Some ''a@b''\<rparr>) auth_stored))"
  by (simp add: isAuthenticated_def checkAuth_def Let_def fetchUserDetails_def
      api_call_def storedTokenValid_def expiryInFuture_def truthy_def auth_stored_def
      date_200_def)

text \<open>
  C4 (as amended). When a submitted message is answered by a stream that ends normally and
  whose text, however it is cut into values, is a sequence of records \<open>data: payload\<close>
  each followed by two line feeds, with payloads free of line feeds that parse as frames,
  the assistant message holds afterwards the contents of the frames not marked done, in
  arrival order; a frame marked done adds nothing.
\<close>

theorem handleSubmit_stream_content:
  assumes "trim (input st) \<noteq> []" and "\<not> isSending st" and "truthy (token_of active)"
    and "fetched = FetchResolves (Response True status detail (Some (vs, EndOfData)))"
    and "concat vs = concat (map (\<lambda>p. ''data: '' @ p @ [CHR 0x0A, CHR 0x0A]) payloads)"
    and "\<forall>p\<in>set payloads. CHR 0x0A \<notin> set p"
    and "map P payloads = map Some frames"
  shows "messages (handleSubmit P baseURL active fetched st) =
     messages st @ [\<lparr>role = Role_user, content = input st\<rparr>,
       \<lparr>role = Role_assistant,
        content = concat (map chunk_content (filter (\<lambda>f. \<not> chunk_done f) frames))\<rparr>]"
proof -
  let ?u = "\<lparr>role = Role_user, content = input st\<rparr>"
  have a: "active \<noteq> None"
    using assms(3) by (cases active) (simp_all add: truthy_def token_of_def)
  have m: "messages (submitted st) =
      (messages st @ [?u]) @ [\<lparr>role = Role_assistant, content = []\<rparr>]"
    by (simp add: submitted_def)
  have r: "read_loop P vs [] (messages st @ [?u, \<lparr>role = Role_assistant, content = []\<rparr>]) =
      messages st @ [?u, \<lparr>role = Role_assistant,
        content = concat (map chunk_content (filter (\<lambda>f. \<not> chunk_done f) frames))\<rparr>]"
    using read_loop_frames[OF assms(5-7), of "messages st @ [?u]" "[]"] by simp
  show ?thesis
    using assms(1-4) a by (simp add: handleSubmit_def try_block_def Let_def m r)
qed

theorem handleSubmit_stream_content_witness:
  "messages (handleSubmit parse_three None (Some session_A)
     (FetchResolves (Response True 200 JsonRejects
        (Some ([''data: p1'' @ [CHR 0x0A], [CHR 0x0A] @ ''data'',
                '': p2'' @ [CHR 0x0A, CHR 0x0A]], EndOfData)))) chat_idle)
   = [\<lparr>role = Role_user, content = ''hi''\<rparr>, \<lparr>role = Role_assistant, content = ''Hello''\<rparr>]"
proof -
  let ?vs = "[''data: p1'' @ [CHR 0x0A], [CHR 0x0A] @ ''data'', '': p2'' @ [CHR 0x0A, CHR 0x0A]]"
  have h1: "trim (input chat_idle) \<noteq> []"
    by (simp add: chat_idle_def trim_def js_whitespace_def)
  have h2: "\<not> isSending chat_idle" by (simp add: chat_idle_def)
  have h3: "truthy (token_of (Some session_A))"
    by (simp add: truthy_def token_of_def session_A_def)
  have h5: "concat ?vs =
      concat (map (\<lambda>p. ''data: '' @ p @ [CHR 0x0A, CHR 0x0A]) [''p1'', ''p2''])"
    by simp
  have h6: "\<forall>p\<in>set [''p1'', ''p2'']. CHR 0x0A \<notin> set p" by simp
  have h7: "map parse_three [''p1'', ''p2''] =
      map Some [StreamChunk ''Hel'' False, StreamChunk ''lo'' False]"
    by (simp add: parse_three_def)
  from handleSubmit_stream_content[OF h1 h2 h3 refl h5 h6 h7,
      where status = 200 and detail = JsonRejects and baseURL = None]
  show ?thesis by (simp add: chat_idle_def)
qed

theorem handleSubmit_done_frame_dropped:
  "parse_three ''p3'' = Some (StreamChunk ''X'' True) \<and>
   messages (handleSubmit parse_three None (Some session_A)
     (FetchResolves (Response True 200 JsonRejects
        (Some ([''data: p3'' @ [CHR 0x0A, CHR 0x0A]], EndOfData)))) chat_idle)
   = [\<lparr>role = Role_user, content = ''hi''\<rparr>, \<lparr>role = Role_assistant, content = []\<rparr>]"
  by (simp add: handleSubmit_def try_block_def submitted_def Let_def chat_idle_def
      session_A_def parse_three_def truthy_def token_of_def trim_def js_whitespace_def
      process_line_def startsWith_def append_content_def)

text \<open>
  C5 (as amended). When the \<open>try\<close> block of an accepted submission throws an \<open>Error\<close>
  other than an \<open>AbortError\<close>, the list ends before the \<open>catch\<close> clause with the user
  message and the assistant placeholder; if the placeholder is still empty it is replaced
  by a message with the error text, and if it holds partial content it is kept as it is
  and a new assistant message with the error text is added after it. \<open>handleSubmit\<close>
  returns a state in every case, with \<open>isSending\<close> false.
\<close>

theorem handleSubmit_failure_message:
  assumes "trim (input st) \<noteq> []" and "\<not> isSending st" and "active \<noteq> None"
    and "snd (try_block P baseURL active (messages st @ [\<lparr>role = Role_user, content = input st\<rparr>])
           fetched (submitted st)) = Some (ErrorObject nm msg)"
    and "nm \<noteq> ''AbortError''"
  shows "\<exists>partial.
     messages (fst (try_block P baseURL active
         (messages st @ [\<lparr>role = Role_user, content = input st\<rparr>]) fetched (submitted st))) =
       messages st @ [\<lparr>role = Role_user, content = input st\<rparr>,
                      \<lparr>role = Role_assistant, content = partial\<rparr>] \<and>
     messages (handleSubmit P baseURL active fetched st) =
       (if partial = []
        then messages st @ [\<lparr>role = Role_user, content = input st\<rparr>,
               \<lparr>role = Role_assistant, content = ''Sorry, an error occurred: '' @ msg\<rparr>]
        else messages st @ [\<lparr>role = Role_user, content = input st\<rparr>,
               \<lparr>role = Role_assistant, content = partial\<rparr>,
               \<lparr>role = Role_assistant, content = ''Sorry, an error occurred: '' @ msg\<rparr>]) \<and>
     \<not> isSending (handleSubmit P baseURL active fetched st)"
proof -
  let ?u = "\<lparr>role = Role_user, content = input st\<rparr>"
  let ?t = "try_block P baseURL active (messages st @ [?u]) fetched (submitted st)"
  have "messages (submitted st) =
      (messages st @ [?u]) @ [\<lparr>role = Role_assistant, content = []\<rparr>]"
    by (simp add: submitted_def)
  from try_block_shape[OF this, of P baseURL active "messages st @ [?u]" fetched]
  obtain partial where p: "messages (fst ?t) =
      (messages st @ [?u]) @ [\<lparr>role = Role_assistant, content = partial\<rparr>]"
    by auto
  have hs: "handleSubmit P baseURL active fetched st =
      (catch_block (ErrorObject nm msg) (fst ?t))\<lparr>isSending := False\<rparr>"
    using assms by (auto simp add: handleSubmit_def split: prod.splits)
  show ?thesis
    by (rule exI[of _ partial]) (simp add: hs p catch_block_def assms(5) butlast_append)
qed

theorem handleSubmit_failure_message_witness:
  "messages (handleSubmit parse_three None (Some session_A)
      (FetchRejects (ErrorObject ''TypeError'' ''Failed to fetch'')) chat_idle)
   = [\<lparr>role = Role_user, content = ''hi''\<rparr>,
      \<lparr>role = Role_assistant, content = ''Sorry, an error occurred: Failed to fetch''\<rparr>]"
proof -
  let ?f = "FetchRejects (ErrorObject ''TypeError'' ''Failed to fetch'')"
  have h1: "trim (input chat_idle) \<noteq> []"
    by (simp add: chat_idle_def trim_def js_whitespace_def)
  have h2: "\<not> isSending chat_idle" by (simp add: chat_idle_def)
  have h3: "Some session_A \<noteq> None" by simp
  have h4: "snd (try_block parse_three None (Some session_A)
      (messages chat_idle @ [\<lparr>role = Role_user, content = input chat_idle\<rparr>]) ?f
      (submitted chat_idle)) = Some (ErrorObject ''TypeError'' ''Failed to fetch'')"
    by (simp add: try_block_def Let_def truthy_def token_of_def session_A_def)
  have h5: "''TypeError'' \<noteq> ''AbortError''" by simp
  have m: "messages (fst (try_block parse_three None (Some session_A)
      (messages chat_idle @ [\<lparr>role = Role_user, content = input chat_idle\<rparr>]) ?f
      (submitted chat_idle))) =
      [\<lparr>role = Role_user, content = ''hi''\<rparr>, \<lparr>role = Role_assistant, content = []\<rparr>]"
    by (simp add: try_block_def Let_def truthy_def token_of_def session_A_def submitted_def
        chat_idle_def)
  from handleSubmit_failure_message[OF h1 h2 h3 h4 h5]
  obtain partial where
    a: "messages (fst (try_block parse_three None (Some session_A)
          (messages chat_idle @ [\<lparr>role = Role_user, content = input chat_idle\<rparr>]) ?f
          (submitted chat_idle))) =
        messages chat_idle @ [\<lparr>role = Role_user, content = input chat_idle\<rparr>,
                      \<lparr>role = Role_assistant, content = partial\<rparr>]"
    and b: "messages (handleSubmit parse_three None (Some session_A) ?f chat_idle) =
       (if partial = []
        then messages chat_idle @ [\<lparr>role = Role_user, content = input chat_idle\<rparr>,
               \<lparr>role = Role_assistant,
                content = ''Sorry, an error occurred: '' @ ''Failed to fetch''\<rparr>]
        else messages chat_idle @ [\<lparr>role = Role_user, content = input chat_idle\<rparr>,
               \<lparr>role = Role_assistant, content = partial\<rparr>,
               \<lparr>role = Role_assistant,
                content = ''Sorry, an error occurred: '' @ ''Failed to fetch''\<rparr>])"
    by blast
  from a m have "partial = []" by (simp add: chat_idle_def)
  with b show ?thesis by (simp add: chat_idle_def)
qed

theorem handleSubmit_failure_keeps_partial:
  "messages (handleSubmit parse_three None (Some session_A)
     (FetchResolves (Response True 200 JsonRejects
        (Some ([''data: p1'' @ [CHR 0x0A, CHR 0x0A]],
               ReadRejects (ErrorObject ''TypeError'' ''network error''))))) chat_idle)
   = [\<lparr>role = Role_user, content = ''hi''\<rparr>, \<lparr>role = Role_assistant, content = ''Hel''\<rparr>,
      \<lparr>role = Role_assistant, content = ''Sorry, an error occurred: network error''\<rparr>]"
  by (simp add: handleSubmit_def try_block_def submitted_def catch_block_def Let_def
      chat_idle_def session_A_def parse_three_def truthy_def token_of_def trim_def
      js_whitespace_def process_line_def startsWith_def append_content_def)

text \<open>
  C6. For a request that reaches the router without a credential of the caller: when its
  url is a chatbot url, the router attaches the token of the persisted active session if
  there is one and nothing otherwise, and the result does not depend on the stored account
  token; when its url is the session listing, the router attaches the stored account token
  if there is one (and the method is not PATCH) and nothing otherwise, and the result
  does not depend on the persisted active session nor on how it parses.
\<close>

theorem router_token_scopes:
  assumes "url cfg = Some u" and "\<not> truthy (headers cfg ''Authorization'')"
  shows "(startsWith u ''/api/v1/chatbot'' \<longrightarrow>
            interceptor J ls cfg =
              (if truthy (activeSessionToken J ls)
               then cfg\<lparr>headers := (headers cfg)(''Authorization'' \<mapsto>
                          ''Bearer '' @ the (activeSessionToken J ls))\<rparr>
               else cfg) \<and>
            interceptor J (ls(''authToken'' := a)) cfg = interceptor J ls cfg) \<and>
         (startsWith u ''/api/v1/auth/sessions'' \<longrightarrow>
            interceptor J ls cfg =
              (if truthy (ls ''authToken'') \<and>
                  map_option toLowerCase (method_name cfg) \<noteq> Some ''patch''
               then cfg\<lparr>headers := (headers cfg)(''Authorization'' \<mapsto>
                          ''Bearer '' @ the (ls ''authToken''))\<rparr>
               else cfg) \<and>
            interceptor J' (ls(''activeSessionInfo'' := b)) cfg = interceptor J ls cfg)"
proof (intro conjI impI)
  assume c: "startsWith u ''/api/v1/chatbot''"
  show "interceptor J ls cfg =
      (if truthy (activeSessionToken J ls)
       then cfg\<lparr>headers := (headers cfg)(''Authorization'' \<mapsto>
                  ''Bearer '' @ the (activeSessionToken J ls))\<rparr>
       else cfg)"
    using assms c by (simp add: interceptor_def route_token_def Let_def)
  show "interceptor J (ls(''authToken'' := a)) cfg = interceptor J ls cfg"
    using assms c by (simp add: interceptor_def route_token_def Let_def activeSessionToken_def)
next
  assume l: "startsWith u ''/api/v1/auth/sessions''"
  then have n: "\<not> startsWith u ''/api/v1/chatbot''" by (rule sessions_url_not_chatbot)
  show "interceptor J ls cfg =
      (if truthy (ls ''authToken'') \<and> map_option toLowerCase (method_name cfg) \<noteq> Some ''patch''
       then cfg\<lparr>headers := (headers cfg)(''Authorization'' \<mapsto>
                  ''Bearer '' @ the (ls ''authToken''))\<rparr>
       else cfg)"
    using assms l n by (auto simp add: interceptor_def route_token_def Let_def truthy_def)
  show "interceptor J' (ls(''activeSessionInfo'' := b)) cfg = interceptor J ls cfg"
    using assms l n by (auto simp add: interceptor_def route_token_def Let_def)
qed

theorem router_token_scopes_witness:
  "headers (interceptor (\<lambda>x. if x = ''blobA'' then Some session_A else None)
      [''authToken'' \<mapsto> ''acct'', ''activeSessionInfo'' \<mapsto> ''blobA'']
      \<lparr>url = Some ''/api/v1/chatbot/messages'', method_name = Some ''get'', headers = Map.empty,
        data = []\<rparr>) ''Authorization'' = Some ''Bearer sessA'' \<and>
   headers (interceptor (\<lambda>x. if x = ''blobA'' then Some session_A else None)
      [''authToken'' \<mapsto> ''acct'', ''activeSessionInfo'' \<mapsto> ''blobA'']
      \<lparr>url = Some ''/api/v1/auth/sessions'', method_name = Some ''get'', headers = Map.empty,
        data = []\<rparr>) ''Authorization'' = Some ''Bearer acct''"
proof -
  let ?J = "\<lambda>x. if x = ''blobA'' then Some session_A else None"
  let ?ls = "[''authToken'' \<mapsto> ''acct'', ''activeSessionInfo'' \<mapsto> ''blobA'']"
  let ?chat = "\<lparr>url = Some ''/api/v1/chatbot/messages'', method_name = Some ''get'',
      headers = Map.empty, data = []\<rparr>"
  let ?list = "\<lparr>url = Some ''/api/v1/auth/sessions'', method_name = Some ''get'',
      headers = Map.empty, data = []\<rparr>"
  have c1: "url ?chat = Some ''/api/v1/chatbot/messages''" by simp
  have c2: "\<not> truthy (headers ?chat ''Authorization'')" by (simp add: truthy_def)
  have c3: "startsWith ''/api/v1/chatbot/messages'' ''/api/v1/chatbot''"
    by (simp add: startsWith_def)
  have l1: "url ?list = Some ''/api/v1/auth/sessions''" by simp
  have l2: "\<not> truthy (headers ?list ''Authorization'')" by (simp add: truthy_def)
  have l3: "startsWith ''/api/v1/auth/sessions'' ''/api/v1/auth/sessions''"
    by (simp add: startsWith_def)
  have t: "activeSessionToken ?J ?ls = Some ''sessA''"
    by (simp add: activeSessionToken_def truthy_def token_of_def session_A_def)
  have m: "map_option toLowerCase (method_name ?list) \<noteq> Some ''patch''"
    by (simp add: toLowerCase_def)
  from router_token_scopes[OF c1 c2, of ?J ?ls] c3
  have a: "interceptor ?J ?ls ?chat =
      (if truthy (activeSessionToken ?J ?ls)
       then ?chat\<lparr>headers := (headers ?chat)(''Authorization'' \<mapsto>
                  ''Bearer '' @ the (activeSessionToken ?J ?ls))\<rparr>
       else ?chat)"
    by blast
  from router_token_scopes[OF l1 l2, of ?J ?ls] l3
  have b: "interceptor ?J ?ls ?list =
      (if truthy (?ls ''authToken'') \<and>
          map_option toLowerCase (method_name ?list) \<noteq> Some ''patch''
       then ?list\<lparr>headers := (headers ?list)(''Authorization'' \<mapsto>
                  ''Bearer '' @ the (?ls ''authToken''))\<rparr>
       else ?list)"
    by blast
  have a': "headers (interceptor ?J ?ls ?chat) ''Authorization'' = Some ''Bearer sessA''"
    unfolding a by (simp add: t truthy_def)
  have b': "headers (interceptor ?J ?ls ?list) ''Authorization'' = Some ''Bearer acct''"
    unfolding b using m by (simp add: truthy_def)
  show ?thesis using a' b' by simp
qed


text \<open>
  C8. When the listing request fails, \<open>fetchSessions\<close> still calls \<open>createNewSessionFn\<close>:
  a creation request follows the failed listing request, and the session it returns is in
  the list afterwards.
\<close>

theorem fetchSessions_failure_creates:
  "map url (requests (fetchSessions session_id (Some ''acct'') (Inl NetworkError)
       (Inr session_A) registry_empty))
     = [Some ''/api/v1/auth/sessions'', Some ''/api/v1/auth/session''] \<and>
   sessions (fetchSessions session_id (Some ''acct'') (Inl NetworkError)
       (Inr session_A) registry_empty) = [session_A]"
  by (simp add: fetchSessions_def createNewSessionFn_def Let_def switchActiveSession_def
      api_call_def truthy_def registry_empty_def default_name_def session_A_def)

text \<open>
  C9. When the session is in the list with an access token, the new name is empty or all
  white space, and the rename request succeeds, every entry with that id is replaced by
  the server's record carrying the name \<open>Untitled Chat\<close>, whatever name the server echoed;
  such an entry exists, and if the session is the active one, so is the active record.
\<close>

theorem renameSession_blank_name:
  assumes "find (\<lambda>x. session_id x = sessionId) (sessions st) = Some s"
    and "truthy (token_of (Some s))"
    and "\<forall>c\<in>set newName. js_whitespace c"
  shows "sessions (renameSession S sessionId newName (Inr response_data) st) =
           map (\<lambda>x. if session_id x = sessionId
                     then response_data\<lparr>name := ''Untitled Chat''\<rparr> else x) (sessions st) \<and>
         response_data\<lparr>name := ''Untitled Chat''\<rparr>
           \<in> set (sessions (renameSession S sessionId newName (Inr response_data) st)) \<and>
         (active_is st sessionId \<longrightarrow>
            activeSessionInfo (renameSession S sessionId newName (Inr response_data) st) =
              Some (response_data\<lparr>name := ''Untitled Chat''\<rparr>))"
proof -
  have e: "sessions (renameSession S sessionId newName (Inr response_data) st) =
           map (\<lambda>x. if session_id x = sessionId
                     then response_data\<lparr>name := ''Untitled Chat''\<rparr> else x) (sessions st)"
    using assms
    by (simp add: renameSession_def Let_def sanitizedName_def trim_whitespace
        sessions_switchActiveSession api_call_def)
  have "s \<in> set (sessions st)" and "session_id s = sessionId"
    using assms(1) by (auto simp: find_Some_iff)
  then have m: "response_data\<lparr>name := ''Untitled Chat''\<rparr>
      \<in> set (map (\<lambda>x. if session_id x = sessionId
                     then response_data\<lparr>name := ''Untitled Chat''\<rparr> else x) (sessions st))"
    by (force simp: image_iff)
  have a: "active_is st sessionId \<longrightarrow>
      activeSessionInfo (renameSession S sessionId newName (Inr response_data) st) =
        Some (response_data\<lparr>name := ''Untitled Chat''\<rparr>)"
    using assms
    by (simp add: renameSession_def Let_def sanitizedName_def trim_whitespace
        activeSessionInfo_switchActiveSession)
  show ?thesis using e m a by simp
qed

theorem renameSession_blank_name_witness:
  "map name (sessions (renameSession session_id ''a1'' [CHR '' '', CHR 0x09, CHR '' '']
      (Inr (session_A\<lparr>name := ''  ''\<rparr>)) registry_A)) = [''Untitled Chat'']"
proof -
  have h1: "find (\<lambda>x. session_id x = ''a1'') (sessions registry_A) = Some session_A"
    by (simp add: registry_A_def session_A_def)
  have h2: "truthy (token_of (Some session_A))"
    by (simp add: truthy_def token_of_def session_A_def)
  have h3: "\<forall>c\<in>set [CHR '' '', CHR 0x09, CHR '' '']. js_whitespace c"
    by (simp add: js_whitespace_def)
  from renameSession_blank_name[OF h1 h2 h3, of session_id "session_A\<lparr>name := ''  ''\<rparr>"]
  show ?thesis by (simp add: registry_A_def session_A_def)
qed

text \<open>
  C10. When the id is not in the list, or the first entry with that id has no access
  token, \<open>renameSession\<close> and \<open>deleteSession\<close> return the state they were given: the
  session list, the active session, the local storage and the log of requests are the same.
\<close>

theorem rename_delete_without_token:
  assumes "\<not> truthy (token_of (find (\<lambda>x. session_id x = sessionId) (sessions st)))"
  shows "renameSession S sessionId newName patch_result st = st \<and>
         deleteSession S account_token sessionId delete_result post_result st = st"
  using assms by (simp add: renameSession_def deleteSession_def)

theorem rename_delete_without_token_witness:
  "renameSession session_id ''zz'' ''New'' (Inr session_B) registry_A = registry_A \<and>
   deleteSession session_id (Some ''acct'') ''zz'' (Inr ()) (Inr session_B) registry_A = registry_A"
proof -
  have h: "\<not> truthy (token_of (find (\<lambda>x. session_id x = ''zz'') (sessions registry_A)))"
    by (simp add: registry_A_def session_A_def token_of_def truthy_def)
  show ?thesis by (rule rename_delete_without_token[OF h])
qed

end
